theory Spec2Isabelle
  imports Complex_Main
begin

section \<open>Differentiable tensor operators of \<open>src/modules.py\<close>\<close>

text \<open>
  The operators of \<open>modules.py\<close> are pairs of a forward and a backward function over
  tensors of the array library. Tensor elements are modelled as real numbers: the
  formulas of the operators are read in exact arithmetic, rounding is not modelled.
  Where IEEE arithmetic would produce NaN from a division by zero (the mean over an
  empty axis), the model has HOL's \<open>x / 0 = 0\<close>: a theorem that states such a mean
  writes the same quotient on both sides, and the theorems about the statistics of
  LayerNorm assume at least one feature. A division of Python numbers by zero raises
  and is a branch of the model.
\<close>

subsection \<open>Errors\<close>

datatype error = AssertionError | IndexError | RuntimeError | ZeroDivisionError

definition ebind :: "error + 'a \<Rightarrow> ('a \<Rightarrow> error + 'b) \<Rightarrow> error + 'b" where
  "ebind m f = (case m of Inl e \<Rightarrow> Inl e | Inr v \<Rightarrow> f v)"

subsection \<open>Tensors of any rank\<close>

text \<open>
  A tensor is its shape and its elements in row-major order. It is well formed when
  the number of elements is the product of the shape.
\<close>

datatype tensor = Tensor (shape: "nat list") (flat: "real list")

definition wf_tensor :: "tensor \<Rightarrow> bool" where
  "wf_tensor t = (length (flat t) = prod_list (shape t))"

text \<open>An elementwise function, and an operation with a Python number.\<close>

definition tmap :: "(real \<Rightarrow> real) \<Rightarrow> tensor \<Rightarrow> tensor" where
  "tmap f t = Tensor (shape t) (map f (flat t))"

text \<open>
  Broadcasting of two shapes: aligned at the last axis, two sizes are compatible when
  they are equal or one of them is 1.
\<close>

fun broadcast_rev :: "nat list \<Rightarrow> nat list \<Rightarrow> nat list option" where
  "broadcast_rev [] ns = Some ns"
| "broadcast_rev (m # ms) [] = Some (m # ms)"
| "broadcast_rev (m # ms) (n # ns) =
     (if m = n \<or> n = 1 then map_option ((#) m) (broadcast_rev ms ns)
      else if m = 1 then map_option ((#) n) (broadcast_rev ms ns)
      else None)"

definition broadcast_shapes :: "nat list \<Rightarrow> nat list \<Rightarrow> nat list option" where
  "broadcast_shapes ms ns = map_option rev (broadcast_rev (rev ms) (rev ns))"

text \<open>All multi-indices of a shape, in row-major order, and the offset of one.\<close>

fun indices :: "nat list \<Rightarrow> nat list list" where
  "indices [] = [[]]"
| "indices (n # ns) = concat (map (\<lambda>i. map ((#) i) (indices ns)) [0..<n])"

fun ravel :: "nat \<Rightarrow> nat list \<Rightarrow> nat list \<Rightarrow> nat" where
  "ravel acc (n # ns) (i # idx) = ravel (acc * n + i) ns idx"
| "ravel acc _ _ = acc"

text \<open>
  The element of a tensor at a multi-index of a shape it was broadcast to: the leading
  indices the tensor has no axis for are dropped, an axis of size 1 is read at 0.
\<close>

definition bget :: "tensor \<Rightarrow> nat list \<Rightarrow> real" where
  "bget t idx =
     flat t ! ravel 0 (shape t)
       (map2 (\<lambda>n i. if n = 1 then 0 else i) (shape t)
          (drop (length idx - length (shape t)) idx))"

definition tbin :: "(real \<Rightarrow> real \<Rightarrow> real) \<Rightarrow> tensor \<Rightarrow> tensor \<Rightarrow> error + tensor" where
  "tbin f a b =
     (case broadcast_shapes (shape a) (shape b) of
        None \<Rightarrow> Inl RuntimeError
      | Some sh \<Rightarrow> Inr (Tensor sh (map (\<lambda>idx. f (bget a idx) (bget b idx)) (indices sh))))"

subsection \<open>Add\<close>

text \<open>
  \<open>AddFn.forward\<close> asserts that the shapes are equal and returns \<open>a + b\<close>; it saves
  nothing. \<open>AddFn.backward\<close> returns the upstream gradient twice.
\<close>

definition AddFn_forward :: "tensor \<Rightarrow> tensor \<Rightarrow> error + tensor" where
  "AddFn_forward a b =
     (if shape a = shape b then tbin (+) a b else Inl AssertionError)"

definition AddFn_backward :: "tensor \<Rightarrow> tensor \<times> tensor" where
  "AddFn_backward y_grad = (y_grad, y_grad)"

subsection \<open>GELU\<close>

text \<open>
  \<open>GELUFn.forward\<close> saves the input, the constant \<open>a\<close> (a tensor of rank 0, here a
  real) and the argument \<open>b\<close> of the hyperbolic tangent.
\<close>

record gelu_ctx =
  gelu_x :: tensor
  gelu_a :: real
  gelu_b :: tensor

definition GELUFn_forward :: "tensor \<Rightarrow> error + (tensor \<times> gelu_ctx)" where
  "GELUFn_forward x =
     (let a = sqrt (2 / pi) in
      ebind (tbin (+) x (tmap (\<lambda>v. 0.044715 * v) (tmap (\<lambda>v. v ^ 3) x))) (\<lambda>inner.
      let b = tmap (\<lambda>v. a * v) inner in
      ebind (tbin (*) (tmap (\<lambda>v. 0.5 * v) x) (tmap (\<lambda>v. 1 + v) (tmap tanh b))) (\<lambda>out.
      Inr (out, \<lparr>gelu_x = x, gelu_a = a, gelu_b = b\<rparr>))))"

definition GELUFn_backward :: "gelu_ctx \<Rightarrow> tensor \<Rightarrow> error + tensor" where
  "GELUFn_backward ctx y_grad =
     (let x = gelu_x ctx; a = gelu_a ctx; b = gelu_b ctx;
          db = tmap (\<lambda>v. a * v) (tmap (\<lambda>v. 1 + v) (tmap (\<lambda>v. 3 * 0.044715 * v) (tmap (\<lambda>v. v ^ 2) x)))
      in
      ebind (tbin (/) x (tmap (\<lambda>v. v ^ 2) (tmap cosh b))) (\<lambda>q.
      ebind (tbin (*) q db) (\<lambda>corr.
      ebind (tbin (+) (tmap (\<lambda>v. 1 + v) (tmap tanh b)) corr) (\<lambda>d.
      tbin (*) (tmap (\<lambda>v. v * 0.5) y_grad) d))))"

text \<open>The factor of the claimed GELU gradient, as the specification writes it.\<close>

definition gelu_grad_spec :: "real \<Rightarrow> real" where
  "gelu_grad_spec x =
     (let a = sqrt (2 / pi);
          b = a * (x + 0.044715 * x ^ 3);
          dbdx = a * (1 + 3 * 0.044715 * x ^ 2)
      in 0.5 * (1 + tanh b + x * (1 / (cosh b) ^ 2) * dbdx))"

subsection \<open>Vectors and matrices\<close>

text \<open>
  The other operators unpack \<open>T, C = x.shape\<close>: their tensors have rank 2 or 1. A
  tensor of rank 1 is the list of its elements, of integers for class targets and
  indices. A matrix carries its number of columns, so that the shape \<open>(0, C)\<close> is
  represented, and the list of its rows.
\<close>

type_synonym vec = "real list"
type_synonym ivec = "int list"

datatype mat = Mat (ncols: nat) (rows: "real list list")

definition nrows :: "mat \<Rightarrow> nat" where
  "nrows m = length (rows m)"

definition wf_mat :: "mat \<Rightarrow> bool" where
  "wf_mat m = list_all (\<lambda>r. length r = ncols m) (rows m)"

definition mget :: "mat \<Rightarrow> nat \<Rightarrow> nat \<Rightarrow> real" where
  "mget m t c = rows m ! t ! c"

text \<open>The vector and the matrix with given entries.\<close>

definition vtab :: "nat \<Rightarrow> (nat \<Rightarrow> real) \<Rightarrow> vec" where
  "vtab n f = map f [0..<n]"

definition mtab :: "nat \<Rightarrow> nat \<Rightarrow> (nat \<Rightarrow> nat \<Rightarrow> real) \<Rightarrow> mat" where
  "mtab T C f = Mat C (map (\<lambda>t. map (f t) [0..<C]) [0..<T])"

definition mat_map :: "(real \<Rightarrow> real) \<Rightarrow> mat \<Rightarrow> mat" where
  "mat_map f m = Mat (ncols m) (map (map f) (rows m))"

text \<open>
  Broadcasting of two sizes of one axis, and the index read on an axis of size
  \<open>n\<close> that was broadcast.
\<close>

definition bdim :: "nat \<Rightarrow> nat \<Rightarrow> nat option" where
  "bdim m n = (if m = n \<or> n = 1 then Some m else if m = 1 then Some n else None)"

definition bdim3 :: "nat \<Rightarrow> nat \<Rightarrow> nat \<Rightarrow> nat option" where
  "bdim3 l m n = (case bdim l m of None \<Rightarrow> None | Some k \<Rightarrow> bdim k n)"

definition bidx :: "nat \<Rightarrow> nat \<Rightarrow> nat" where
  "bidx n i = (if n = 1 then 0 else i)"

text \<open>An elementwise operation of two matrices, with broadcasting.\<close>

definition mat_bin :: "(real \<Rightarrow> real \<Rightarrow> real) \<Rightarrow> mat \<Rightarrow> mat \<Rightarrow> error + mat" where
  "mat_bin f a b =
     (case bdim (nrows a) (nrows b) of
        None \<Rightarrow> Inl RuntimeError
      | Some T \<Rightarrow>
         (case bdim (ncols a) (ncols b) of
            None \<Rightarrow> Inl RuntimeError
          | Some C \<Rightarrow>
              Inr (mtab T C (\<lambda>t c.
                f (mget a (bidx (nrows a) t) (bidx (ncols a) c))
                  (mget b (bidx (nrows b) t) (bidx (ncols b) c))))))"

text \<open>
  A matrix as a tensor of rank 2. The broadcasting of matrices is the broadcasting of
  tensors at rank 2 (lemma \<open>mat_bin_is_tbin\<close>).
\<close>

definition to_tensor :: "mat \<Rightarrow> tensor" where
  "to_tensor m = Tensor [nrows m, ncols m] (concat (rows m))"

text \<open>\<open>unsqueeze(1)\<close> and \<open>unsqueeze(0)\<close> of a vector.\<close>

definition unsqueeze1 :: "vec \<Rightarrow> mat" where
  "unsqueeze1 v = Mat 1 (map (\<lambda>a. [a]) v)"

definition unsqueeze0 :: "vec \<Rightarrow> mat" where
  "unsqueeze0 v = Mat (length v) [v]"

text \<open>Reductions: \<open>sum(1)\<close>, \<open>sum(0)\<close> and \<open>mean(1)\<close> of a matrix, \<open>mean(0)\<close> of a vector.\<close>

definition sum_dim1 :: "mat \<Rightarrow> vec" where
  "sum_dim1 m = map sum_list (rows m)"


definition mean_dim1 :: "mat \<Rightarrow> vec" where
  "mean_dim1 m = map (\<lambda>r. sum_list r / real (ncols m)) (rows m)"

definition mean_dim0 :: "vec \<Rightarrow> real" where
  "mean_dim0 v = sum_list v / real (length v)"

subsection \<open>Indexing with integer tensors\<close>

text \<open>
  An index \<open>i\<close> into an axis of size \<open>n\<close> is valid in \<open>[-n, n)\<close>; a negative one
  counts from the end. Any other index raises.
\<close>

definition wrap_index :: "nat \<Rightarrow> int \<Rightarrow> error + nat" where
  "wrap_index n i =
     (if 0 \<le> i \<and> i < int n then Inr (nat i)
      else if - int n \<le> i \<and> i < 0 then Inr (nat (i + int n))
      else Inl IndexError)"

fun emap :: "('a \<Rightarrow> error + 'b) \<Rightarrow> 'a list \<Rightarrow> error + 'b list" where
  "emap f [] = Inr []"
| "emap f (x # xs) = ebind (f x) (\<lambda>y. ebind (emap f xs) (\<lambda>ys. Inr (y # ys)))"

definition arange :: "nat \<Rightarrow> ivec" where
  "arange n = map int [0..<n]"

definition eye :: "nat \<Rightarrow> mat" where
  "eye n = mtab n n (\<lambda>i j. if i = j then 1 else 0)"

text \<open>
  \<open>m[is, js]\<close> with two index vectors: the index vectors are broadcast against each
  other (which fails when their lengths differ and neither is 1), and the result holds
  \<open>m[is[k], js[k]]\<close>.
\<close>

definition index2 :: "mat \<Rightarrow> ivec \<Rightarrow> ivec \<Rightarrow> error + vec" where
  "index2 m is js =
     (case bdim (length is) (length js) of
        None \<Rightarrow> Inl IndexError
      | Some n \<Rightarrow>
          emap (\<lambda>k.
            ebind (wrap_index (nrows m) (is ! bidx (length is) k)) (\<lambda>r.
            ebind (wrap_index (ncols m) (js ! bidx (length js) k)) (\<lambda>c.
            Inr (mget m r c)))) [0..<n])"

text \<open>\<open>m[is]\<close> with one index vector: the rows of \<open>m\<close> at the indices.\<close>

definition index_rows :: "mat \<Rightarrow> ivec \<Rightarrow> error + mat" where
  "index_rows m is =
     ebind (emap (\<lambda>i. ebind (wrap_index (nrows m) i) (\<lambda>r. Inr (rows m ! r))) is) (\<lambda>rs.
     Inr (Mat (ncols m) rs))"

text \<open>
  \<open>torch.index_add(self, 0, index, source)\<close>: row \<open>source[i]\<close> is added to row
  \<open>index[i]\<close> of a copy of \<open>self\<close>, one position after the other. The index vector
  has one entry per row of the source, the rows have the width of \<open>self\<close>, and an index
  outside \<open>[0, N)\<close> raises.
\<close>

fun index_add_loop :: "real list list \<Rightarrow> ivec \<Rightarrow> real list list \<Rightarrow> real list list" where
  "index_add_loop acc (i # is) (r # rs) =
     index_add_loop (acc[nat i := map2 (+) (acc ! nat i) r]) is rs"
| "index_add_loop acc _ _ = acc"

definition index_add :: "mat \<Rightarrow> ivec \<Rightarrow> mat \<Rightarrow> error + mat" where
  "index_add self is src =
     (if length is \<noteq> nrows src \<or> ncols src \<noteq> ncols self then Inl RuntimeError
      else if list_ex (\<lambda>i. i < 0 \<or> int (nrows self) \<le> i) is then Inl IndexError
      else Inr (Mat (ncols self) (index_add_loop (rows self) is (rows src))))"

definition zeros_like :: "mat \<Rightarrow> mat" where
  "zeros_like m = mat_map (\<lambda>_. 0) m"

subsection \<open>The contractions of LayerNorm's backward\<close>




subsection \<open>CrossEntropy\<close>

record ce_ctx =
  ce_x :: mat
  ce_y :: ivec
  ce_s :: mat

definition CrossEntropyFn_forward :: "mat \<Rightarrow> ivec \<Rightarrow> error + (real \<times> ce_ctx)" where
  "CrossEntropyFn_forward x y =
     (let T = nrows x; C = ncols x;
          ex = mat_map exp x
      in
      ebind (mat_bin (/) ex (unsqueeze1 (sum_dim1 ex))) (\<lambda>s.
      ebind (index2 s (arange T) y) (\<lambda>p.
      Inr (- mean_dim0 (map ln p), \<lparr>ce_x = x, ce_y = y, ce_s = s\<rparr>))))"

text \<open>
  The upstream gradient of the loss is a tensor of rank 0, here a real. The
  gradient of the targets is Python's \<open>None\<close>.
\<close>

definition CrossEntropyFn_backward :: "ce_ctx \<Rightarrow> real \<Rightarrow> error + (mat \<times> ivec option)" where
  "CrossEntropyFn_backward ctx y_grad =
     (let x = ce_x ctx; y = ce_y ctx; s = ce_s ctx;
          T = nrows x; C = ncols x
      in
      ebind (index_rows (eye C) y) (\<lambda>onehot.
      ebind (mat_bin (-) s onehot) (\<lambda>d.
      let dx = mat_map (\<lambda>v. v / real T) (mat_map (\<lambda>v. y_grad * v) d)
      in Inr (dx, None))))"

subsection \<open>LayerNorm\<close>

record ln_ctx =
  ln_x :: mat
  ln_gamma :: vec
  ln_beta :: vec
  ln_m :: vec
  ln_mu :: mat
  ln_v :: vec
  ln_sigma :: vec
  ln_y :: mat

definition LayerNormFn_forward :: "mat \<Rightarrow> vec \<Rightarrow> vec \<Rightarrow> error + (mat \<times> ln_ctx)" where
  "LayerNormFn_forward x gamma beta =
     (let eps = 0.00001;
          m = mean_dim1 x
      in
      ebind (mat_bin (-) x (unsqueeze1 m)) (\<lambda>mu.
      let v = mean_dim1 (mat_map (\<lambda>a. a ^ 2) mu);
          sigma = map (\<lambda>a. 1 / sqrt (a + eps)) v
      in
      ebind (mat_bin (*) mu (unsqueeze1 sigma)) (\<lambda>n1.
      ebind (mat_bin (*) n1 (unsqueeze0 gamma)) (\<lambda>n2.
      ebind (mat_bin (+) n2 (unsqueeze0 beta)) (\<lambda>y.
      Inr (y, \<lparr>ln_x = x, ln_gamma = gamma, ln_beta = beta, ln_m = m, ln_mu = mu,
                ln_v = v, ln_sigma = sigma, ln_y = y\<rparr>))))))"


text \<open>The module: the constructor fills the gain with ones and the bias with zeros.\<close>

record LayerNorm =
  param_gamma :: vec
  param_beta :: vec

definition LayerNorm_init :: "nat \<Rightarrow> LayerNorm" where
  "LayerNorm_init c_dim = \<lparr>param_gamma = replicate c_dim 1, param_beta = replicate c_dim 0\<rparr>"

definition LayerNorm_forward :: "LayerNorm \<Rightarrow> mat \<Rightarrow> error + (mat \<times> ln_ctx)" where
  "LayerNorm_forward self x = LayerNormFn_forward x (param_gamma self) (param_beta self)"

text \<open>
  The normalized values before the affine step, \<open>mu * sigma.unsqueeze(1)\<close> in forward,
  from the saved \<open>mu\<close> and \<open>sigma\<close>.
\<close>

definition LayerNorm_normalized :: "ln_ctx \<Rightarrow> error + mat" where
  "LayerNorm_normalized ctx = mat_bin (*) (ln_mu ctx) (unsqueeze1 (ln_sigma ctx))"

subsection \<open>Embedding\<close>

record emb_ctx =
  emb_x :: ivec
  emb_emb :: mat

definition EmbeddingFn_forward :: "ivec \<Rightarrow> mat \<Rightarrow> error + (mat \<times> emb_ctx)" where
  "EmbeddingFn_forward x emb =
     ebind (index_rows emb x) (\<lambda>out. Inr (out, \<lparr>emb_x = x, emb_emb = emb\<rparr>))"

definition EmbeddingFn_backward :: "emb_ctx \<Rightarrow> mat \<Rightarrow> error + (ivec option \<times> mat)" where
  "EmbeddingFn_backward ctx y_grad =
     (let x = emb_x ctx; emb = emb_emb ctx in
      ebind (index_add (zeros_like emb) x y_grad) (\<lambda>demb. Inr (None, demb)))"

subsection \<open>The quantities the specification names\<close>

text \<open>
  The row-wise softmax, the row mean, the centered values, the row variance and the
  row inverse standard deviation, written with sums over the feature axis.
\<close>

definition softmax_spec :: "mat \<Rightarrow> nat \<Rightarrow> nat \<Rightarrow> real" where
  "softmax_spec x t c = exp (mget x t c) / (\<Sum>k<ncols x. exp (mget x t k))"

definition row_mean :: "mat \<Rightarrow> nat \<Rightarrow> real" where
  "row_mean x t = (\<Sum>c<ncols x. mget x t c) / real (ncols x)"

definition centered :: "mat \<Rightarrow> nat \<Rightarrow> nat \<Rightarrow> real" where
  "centered x t c = mget x t c - row_mean x t"

definition row_var :: "mat \<Rightarrow> nat \<Rightarrow> real" where
  "row_var x t = (\<Sum>c<ncols x. (centered x t c) ^ 2) / real (ncols x)"

definition inv_std :: "mat \<Rightarrow> nat \<Rightarrow> real" where
  "inv_std x t = 1 / sqrt (row_var x t + 0.00001)"

text \<open>The mean and the (biased) variance of the entries of one row.\<close>

definition vec_mean :: "vec \<Rightarrow> real" where
  "vec_mean r = sum_list r / real (length r)"

definition vec_var :: "vec \<Rightarrow> real" where
  "vec_var r = vec_mean (map (\<lambda>a. (a - vec_mean r) ^ 2) r)"

section \<open>Properties\<close>

subsection \<open>Broadcasting of equal shapes is elementwise\<close>

lemma broadcast_rev_same: "broadcast_rev ns ns = Some ns"
  by (induction ns) auto

lemma broadcast_shapes_same: "broadcast_shapes ns ns = Some ns"
  by (simp add: broadcast_shapes_def broadcast_rev_same)

lemma concat_blocks: "concat (map (\<lambda>i. map (\<lambda>k. i * P + k) [0..<P]) [0..<n]) = [0..<n * P]"
proof (induction n)
  case 0
  show ?case by simp
next
  case (Suc n)
  have a: "map (\<lambda>k. n * P + k) [0..<P] = [n * P..<n * P + P]"
    using map_add_upt [of "n * P" P] by (simp add: add.commute [of _ "n * P"])
  have b: "[0..<n * P + P] = [0..<n * P] @ [n * P..<n * P + P]"
    using upt_add_eq_append [of 0 "n * P" P] by simp
  have "concat (map (\<lambda>i. map (\<lambda>k. i * P + k) [0..<P]) [0..<Suc n])
      = concat (map (\<lambda>i. map (\<lambda>k. i * P + k) [0..<P]) [0..<n]) @ map (\<lambda>k. n * P + k) [0..<P]"
    by simp
  also have "\<dots> = [0..<n * P + P]"
    by (simp only: Suc.IH a b)
  also have "n * P + P = Suc n * P"
    by simp
  finally show ?case .
qed

lemma ravel_indices:
  "map (ravel acc ns) (indices ns) = map (\<lambda>k. acc * prod_list ns + k) [0..<prod_list ns]"
proof (induction ns arbitrary: acc)
  case Nil
  show ?case by simp
next
  case (Cons n ns)
  let ?P = "prod_list ns"
  have "map (ravel acc (n # ns)) (indices (n # ns))
      = concat (map (\<lambda>i. map (ravel (acc * n + i) ns) (indices ns)) [0..<n])"
    by (simp add: map_concat comp_def)
  also have "\<dots> = concat (map (\<lambda>i. map (\<lambda>k. (acc * n + i) * ?P + k) [0..<?P]) [0..<n])"
    by (simp add: Cons.IH)
  also have "\<dots> = map (\<lambda>k. acc * (n * ?P) + k) (concat (map (\<lambda>i. map (\<lambda>k. i * ?P + k) [0..<?P]) [0..<n]))"
    by (simp add: map_concat comp_def algebra_simps)
  also have "\<dots> = map (\<lambda>k. acc * prod_list (n # ns) + k) [0..<prod_list (n # ns)]"
    by (simp add: concat_blocks)
  finally show ?case .
qed

lemma indices_clip:
  "idx \<in> set (indices ns) \<Longrightarrow> map2 (\<lambda>n i. if n = 1 then 0 else i) ns idx = idx \<and> length idx = length ns"
proof (induction ns arbitrary: idx)
  case Nil
  then show ?case by simp
next
  case (Cons n ns)
  then obtain i rest where "idx = i # rest" "i < n" "rest \<in> set (indices ns)"
    by auto
  with Cons.IH [of rest] show ?case by auto
qed

lemma bget_indices:
  assumes "wf_tensor t"
  shows "map (bget t) (indices (shape t)) = flat t"
proof -
  have "map (bget t) (indices (shape t)) = map (\<lambda>idx. flat t ! ravel 0 (shape t) idx) (indices (shape t))"
    by (rule map_cong) (auto simp: bget_def dest: indices_clip)
  also have "\<dots> = map ((!) (flat t)) (map (ravel 0 (shape t)) (indices (shape t)))"
    by simp
  also have "\<dots> = map ((!) (flat t)) [0..<length (flat t)]"
    using assms by (simp add: ravel_indices wf_tensor_def)
  also have "\<dots> = flat t"
    by (rule map_nth)
  finally show ?thesis .
qed

lemma map_pointwise: "map (\<lambda>x. f (g x) (h x)) xs = map2 f (map g xs) (map h xs)"
  by (induction xs) auto

lemma tbin_same:
  assumes "wf_tensor a" "wf_tensor b" "shape a = shape b"
  shows "tbin f a b = Inr (Tensor (shape a) (map2 f (flat a) (flat b)))"
proof -
  have "map (\<lambda>idx. f (bget a idx) (bget b idx)) (indices (shape a)) = map2 f (flat a) (flat b)"
    using bget_indices [OF assms(1)] bget_indices [OF assms(2)] assms(3)
    by (simp add: map_pointwise)
  then show ?thesis
    using assms(3) by (simp add: tbin_def broadcast_shapes_same)
qed

lemma shape_tmap [simp]: "shape (tmap f t) = shape t"
  by (simp add: tmap_def)

lemma flat_tmap [simp]: "flat (tmap f t) = map f (flat t)"
  by (simp add: tmap_def)

lemma wf_tmap [simp]: "wf_tensor (tmap f t) = wf_tensor t"
  by (simp add: wf_tensor_def)

lemma map2_commute: "(\<And>x y. f x y = f y x) \<Longrightarrow> map2 f xs ys = map2 f ys xs"
  by (induction xs arbitrary: ys) (auto simp: zip_Cons1 split: list.splits)

lemma tmap_tmap: "tmap f (tmap g t) = tmap (\<lambda>v. f (g v)) t"
  by (simp add: tmap_def comp_def)

lemma tmap_ident: "tmap (\<lambda>v. v) t = t"
  by (simp add: tmap_def)

lemma tbin_tmap:
  assumes "wf_tensor x"
  shows "tbin f (tmap g x) (tmap h x) = Inr (tmap (\<lambda>v. f (g v) (h v)) x)"
proof -
  have "tbin f (tmap g x) (tmap h x)
      = Inr (Tensor (shape (tmap g x)) (map2 f (flat (tmap g x)) (flat (tmap h x))))"
    by (rule tbin_same) (simp_all add: assms wf_tmap shape_tmap)
  also have "map2 f (flat (tmap g x)) (flat (tmap h x)) = map (\<lambda>v. f (g v) (h v)) (flat x)"
    by (simp add: flat_tmap zip_map1 zip_map2 zip_same_conv_map comp_def)
  finally show ?thesis
    by (simp add: tmap_def)
qed

lemma map2_maps: "map2 f (map g xs) (map h ys) = map2 (\<lambda>x y. f (g x) (h y)) xs ys"
proof (induction xs arbitrary: ys)
  case Nil
  show ?case by simp
next
  case (Cons x xs)
  then show ?case by (cases ys) simp_all
qed


subsection \<open>Add\<close>

text \<open>
  Claim C8. For tensors \<open>a\<close> and \<open>b\<close> of equal shape, \<open>AddFn.forward\<close> returns the
  elementwise sum and is commutative, and \<open>AddFn.backward\<close> returns the upstream
  gradient unchanged for both inputs.
\<close>

theorem AddFn_commutative_identity:
  assumes "wf_tensor a" "wf_tensor b" "shape a = shape b"
  shows "AddFn_forward a b = Inr (Tensor (shape a) (map2 (+) (flat a) (flat b)))
       \<and> AddFn_forward a b = AddFn_forward b a
       \<and> AddFn_backward g = (g, g)"
proof -
  have "map2 (+) (flat a) (flat b) = map2 (+) (flat b) (flat a)"
    by (rule map2_commute) simp
  then show ?thesis
    using assms by (simp add: AddFn_forward_def AddFn_backward_def tbin_same)
qed

theorem AddFn_commutative_identity_witness:
  "wf_tensor (Tensor [2] [1, 2]) \<and> wf_tensor (Tensor [2] [3, 4])
   \<and> AddFn_forward (Tensor [2] [1, 2]) (Tensor [2] [3, 4]) = Inr (Tensor [2] [4, 6])
   \<and> AddFn_forward (Tensor [2] [1, 2]) (Tensor [2] [3, 4])
       = AddFn_forward (Tensor [2] [3, 4]) (Tensor [2] [1, 2])
   \<and> AddFn_backward (Tensor [2] [5, 6]) = (Tensor [2] [5, 6], Tensor [2] [5, 6])"
  using AddFn_commutative_identity [of "Tensor [2] [1, 2]" "Tensor [2] [3, 4]" "Tensor [2] [5, 6]"]
    AddFn_commutative_identity [of "Tensor [2] [3, 4]" "Tensor [2] [1, 2]" "Tensor [2] [5, 6]"]
  by (simp add: wf_tensor_def)

subsection \<open>GELU\<close>

lemma GELU_forward_value:
  assumes "wf_tensor x"
  shows "GELUFn_forward x =
     Inr (tmap (\<lambda>v. 0.5 * v * (1 + tanh (sqrt (2 / pi) * (v + 0.044715 * v ^ 3)))) x,
          \<lparr>gelu_x = x, gelu_a = sqrt (2 / pi),
           gelu_b = tmap (\<lambda>v. sqrt (2 / pi) * (v + 0.044715 * v ^ 3)) x\<rparr>)"
proof -
  have 1: "tbin (+) x (tmap (\<lambda>v. 0.044715 * v ^ 3) x)
      = Inr (tmap (\<lambda>v. v + 0.044715 * v ^ 3) x)"
    using tbin_tmap [OF assms, of "(+)" "\<lambda>v. v" "\<lambda>v. 0.044715 * v ^ 3"]
    by (simp only: tmap_ident)
  have 2: "tbin (*) (tmap (\<lambda>v. 0.5 * v) x) (tmap (\<lambda>v. 1 + tanh (sqrt (2 / pi) * (v + 0.044715 * v ^ 3))) x)
      = Inr (tmap (\<lambda>v. 0.5 * v * (1 + tanh (sqrt (2 / pi) * (v + 0.044715 * v ^ 3)))) x)"
    by (rule tbin_tmap [OF assms])
  show ?thesis
    by (simp only: GELUFn_forward_def Let_def tmap_tmap 1 2 ebind_def sum.case)
qed

lemma gelu_pointwise:
  "gv * 0.5 * (1 + tanh b + xv / (cosh b) ^ 2 * db) = gv * (0.5 * (1 + tanh b + xv * (1 / (cosh b) ^ 2) * db))"
  by simp

lemma GELU_backward_value:
  assumes "wf_tensor x" "wf_tensor g" "shape g = shape x"
  shows "GELUFn_backward \<lparr>gelu_x = x, gelu_a = sqrt (2 / pi),
           gelu_b = tmap (\<lambda>v. sqrt (2 / pi) * (v + 0.044715 * v ^ 3)) x\<rparr> g
       = Inr (Tensor (shape x) (map2 (\<lambda>gv xv. gv * gelu_grad_spec xv) (flat g) (flat x)))"
proof -
  let ?a = "sqrt (2 / pi)"
  let ?B = "\<lambda>v. ?a * (v + 0.044715 * v ^ 3)"
  let ?db = "\<lambda>v. ?a * (1 + 3 * 0.044715 * v ^ 2)"
  let ?D = "\<lambda>v. 1 + tanh (?B v) + v / (cosh (?B v)) ^ 2 * ?db v"
  have 1: "tbin (/) x (tmap (\<lambda>v. (cosh (?B v)) ^ 2) x)
      = Inr (tmap (\<lambda>v. v / (cosh (?B v)) ^ 2) x)"
    using tbin_tmap [OF assms(1), of "(/)" "\<lambda>v. v" "\<lambda>v. (cosh (?B v)) ^ 2"]
    by (simp only: tmap_ident)
  have 2: "tbin (*) (tmap (\<lambda>v. v / (cosh (?B v)) ^ 2) x) (tmap ?db x)
      = Inr (tmap (\<lambda>v. v / (cosh (?B v)) ^ 2 * ?db v) x)"
    by (rule tbin_tmap [OF assms(1)])
  have 3: "tbin (+) (tmap (\<lambda>v. 1 + tanh (?B v)) x) (tmap (\<lambda>v. v / (cosh (?B v)) ^ 2 * ?db v) x)
      = Inr (tmap ?D x)"
    by (rule tbin_tmap [OF assms(1)])
  have 4: "tbin (*) (tmap (\<lambda>v. v * 0.5) g) (tmap ?D x)
      = Inr (Tensor (shape x) (map2 (\<lambda>gv xv. gv * gelu_grad_spec xv) (flat g) (flat x)))"
  proof -
    have "map2 (*) (map (\<lambda>v. v * 0.5) (flat g)) (map ?D (flat x))
        = map2 (\<lambda>gv xv. gv * gelu_grad_spec xv) (flat g) (flat x)"
      unfolding map2_maps gelu_grad_spec_def Let_def gelu_pointwise ..
    then show ?thesis
      using assms by (simp add: tbin_same)
  qed
  show ?thesis
    by (simp only: GELUFn_backward_def Let_def gelu_ctx.simps tmap_tmap 1 2 3 4 ebind_def sum.case)
qed


text \<open>
  Claim C6. For every input \<open>x\<close> and upstream gradient of the same shape,
  \<open>GELUFn.forward\<close> saves \<open>(x, a, b)\<close> with \<open>a = sqrt(2/pi)\<close> and
  \<open>b = a * (x + 0.044715 * x^3)\<close>, and \<open>GELUFn.backward\<close>, from these saved values,
  returns the upstream gradient multiplied elementwise by
  \<open>0.5 * (1 + tanh(b) + x * sech^2(b) * db/dx)\<close> with \<open>db/dx = a * (1 + 3*0.044715*x^2)\<close>.
\<close>

theorem GELUFn_backward_formula:
  assumes "wf_tensor x" "wf_tensor g" "shape g = shape x"
  shows "\<exists>out ctx. GELUFn_forward x = Inr (out, ctx)
       \<and> gelu_x ctx = x \<and> gelu_a ctx = sqrt (2 / pi)
       \<and> gelu_b ctx = tmap (\<lambda>v. sqrt (2 / pi) * (v + 0.044715 * v ^ 3)) x
       \<and> GELUFn_backward ctx g
           = Inr (Tensor (shape x) (map2 (\<lambda>gv xv. gv * gelu_grad_spec xv) (flat g) (flat x)))"
  using GELU_forward_value [OF assms(1)] GELU_backward_value [OF assms]
  by simp

theorem GELUFn_backward_formula_witness:
  "wf_tensor (Tensor [2] [0, 0]) \<and> wf_tensor (Tensor [2] [2, 4])
   \<and> (\<exists>out ctx. GELUFn_forward (Tensor [2] [0, 0]) = Inr (out, ctx)
        \<and> GELUFn_backward ctx (Tensor [2] [2, 4]) = Inr (Tensor [2] [1, 2]))"
  using GELUFn_backward_formula [of "Tensor [2] [0, 0]" "Tensor [2] [2, 4]"]
  by (auto simp: wf_tensor_def gelu_grad_spec_def)

subsection \<open>Matrices by their entries\<close>

lemma nrows_mtab [simp]: "nrows (mtab T C f) = T"
  by (simp add: nrows_def mtab_def)

lemma ncols_mtab [simp]: "ncols (mtab T C f) = C"
  by (simp add: mtab_def)

lemma wf_mtab [simp]: "wf_mat (mtab T C f)"
  by (simp add: wf_mat_def mtab_def list_all_iff)

lemma mget_mtab [simp]: "t < T \<Longrightarrow> c < C \<Longrightarrow> mget (mtab T C f) t c = f t c"
  by (simp add: mget_def mtab_def)

lemma mtab_cong [cong]:
  "T = T' \<Longrightarrow> C = C' \<Longrightarrow> (\<And>t c. t < T' \<Longrightarrow> c < C' \<Longrightarrow> f t c = g t c)
   \<Longrightarrow> mtab T C f = mtab T' C' g"
  by (simp add: mtab_def)

lemma vtab_cong [cong]:
  "n = n' \<Longrightarrow> (\<And>i. i < n' \<Longrightarrow> f i = g i) \<Longrightarrow> vtab n f = vtab n' g"
  by (simp add: vtab_def)

lemma length_vtab [simp]: "length (vtab n f) = n"
  by (simp add: vtab_def)

lemma nth_vtab [simp]: "i < n \<Longrightarrow> vtab n f ! i = f i"
  by (simp add: vtab_def)

lemma vec_eq_vtab: "v = vtab (length v) ((!) v)"
  by (simp add: vtab_def map_nth)

lemma mat_eq_mtab:
  assumes "wf_mat m"
  shows "m = mtab (nrows m) (ncols m) (mget m)"
proof -
  have "rows m = map (\<lambda>t. map (mget m t) [0..<ncols m]) [0..<nrows m]"
  proof (rule nth_equalityI)
    show "length (rows m) = length (map (\<lambda>t. map (mget m t) [0..<ncols m]) [0..<nrows m])"
      by (simp add: nrows_def)
  next
    fix t assume t: "t < length (rows m)"
    then have "length (rows m ! t) = ncols m"
      using assms by (simp add: wf_mat_def list_all_length)
    then have "rows m ! t = map ((!) (rows m ! t)) [0..<ncols m]"
      using map_nth [of "rows m ! t"] by simp
    then show "rows m ! t = map (\<lambda>t. map (mget m t) [0..<ncols m]) [0..<nrows m] ! t"
      using t by (simp add: nrows_def mget_def [abs_def])
  qed
  then show ?thesis
    by (cases m) (simp add: mtab_def)
qed

lemma mat_map_mtab: "mat_map f (mtab T C g) = mtab T C (\<lambda>t c. f (g t c))"
  by (simp add: mat_map_def mtab_def comp_def)

lemma sum_list_upt: "sum_list (map f [0..<n]) = (\<Sum>i<n. f i)"
  by (simp add: interv_sum_list_conv_sum_set_nat atLeast0LessThan)

lemma sum_dim1_mtab: "sum_dim1 (mtab T C f) = vtab T (\<lambda>t. \<Sum>c<C. f t c)"
  by (simp add: sum_dim1_def mtab_def vtab_def comp_def sum_list_upt)

lemma mean_dim1_mtab: "mean_dim1 (mtab T C f) = vtab T (\<lambda>t. (\<Sum>c<C. f t c) / real C)"
  by (simp add: mean_dim1_def mtab_def vtab_def comp_def sum_list_upt)


lemma unsqueeze1_vtab: "unsqueeze1 (vtab T f) = mtab T (Suc 0) (\<lambda>t c. f t)"
  by (simp add: unsqueeze1_def vtab_def mtab_def)

lemma unsqueeze0_vtab: "unsqueeze0 (vtab C f) = mtab (Suc 0) C (\<lambda>t c. f c)"
  by (simp add: unsqueeze0_def vtab_def mtab_def)

lemma bidx_lt [simp]: "i < n \<Longrightarrow> bidx n i = i"
  by (auto simp: bidx_def)

lemma bidx_1 [simp]: "bidx (Suc 0) i = 0"
  by (simp add: bidx_def)

lemma bdim_same [simp]: "bdim n n = Some n"
  by (simp add: bdim_def)

lemma bdim_1 [simp]: "bdim n (Suc 0) = Some n"
  by (simp add: bdim_def)

lemma mat_bin_same:
  "mat_bin f (mtab T C g) (mtab T C h) = Inr (mtab T C (\<lambda>t c. f (g t c) (h t c)))"
  by (simp add: mat_bin_def)

lemma mat_bin_col:
  "mat_bin f (mtab T C g) (mtab T (Suc 0) h) = Inr (mtab T C (\<lambda>t c. f (g t c) (h t 0)))"
  by (simp add: mat_bin_def)

lemma mat_bin_row:
  "mat_bin f (mtab T C g) (mtab (Suc 0) C h) = Inr (mtab T C (\<lambda>t c. f (g t c) (h 0 c)))"
  by (simp add: mat_bin_def)

subsection \<open>Matrices as tensors of rank 2\<close>

lemma concat_nth_uniform:
  assumes "\<forall>r\<in>set xss. length r = n" "i < length xss" "j < n"
  shows "concat xss ! (i * n + j) = xss ! i ! j"
  using assms
proof (induction xss arbitrary: i)
  case Nil
  then show ?case by simp
next
  case (Cons r xss)
  show ?case
  proof (cases i)
    case 0
    with Cons.prems show ?thesis by (simp add: nth_append)
  next
    case (Suc k)
    have "concat (r # xss) ! (i * n + j) = concat xss ! (k * n + j)"
      using Cons.prems(1) Suc by (simp add: nth_append)
    also have "\<dots> = xss ! k ! j"
      using Cons.prems Suc by (intro Cons.IH) simp_all
    finally show ?thesis using Suc by simp
  qed
qed

lemma broadcast_shapes_rank2:
  "broadcast_shapes [Ta, Ca] [Tb, Cb] =
     (case bdim Ta Tb of None \<Rightarrow> None
      | Some T \<Rightarrow> (case bdim Ca Cb of None \<Rightarrow> None | Some C \<Rightarrow> Some [T, C]))"
  by (simp add: broadcast_shapes_def bdim_def)

lemma indices_rank2:
  "indices [T, C] = concat (map (\<lambda>t. map (\<lambda>c. [t, c]) [0..<C]) [0..<T])"
  by (simp add: comp_def)

lemma bdim_bidx_less:
  assumes "bdim m n = Some k" "i < k"
  shows "bidx m i < m"
  using assms by (auto simp: bdim_def bidx_def split: if_splits)

lemma bdim_bidx_less':
  assumes "bdim m n = Some k" "i < k"
  shows "bidx n i < n"
  using assms by (auto simp: bdim_def bidx_def split: if_splits)

lemma bget_to_tensor:
  assumes "wf_mat a" "bidx (nrows a) t < nrows a" "bidx (ncols a) c < ncols a"
  shows "bget (to_tensor a) [t, c] = mget a (bidx (nrows a) t) (bidx (ncols a) c)"
proof -
  have r: "\<forall>r\<in>set (rows a). length r = ncols a"
    using assms(1) by (simp add: wf_mat_def list_all_iff)
  have "bget (to_tensor a) [t, c]
      = concat (rows a) ! (bidx (nrows a) t * ncols a + bidx (ncols a) c)"
    by (simp add: bget_def to_tensor_def bidx_def)
  also have "\<dots> = rows a ! bidx (nrows a) t ! bidx (ncols a) c"
    using assms(2,3) by (intro concat_nth_uniform [OF r]) (simp_all add: nrows_def)
  finally show ?thesis by (simp add: mget_def)
qed

lemma to_tensor_mtab:
  "to_tensor (mtab T C h) = Tensor [T, C] (concat (map (\<lambda>t. map (h t) [0..<C]) [0..<T]))"
proof -
  have "rows (mtab T C h) = map (\<lambda>t. map (h t) [0..<C]) [0..<T]"
    by (simp add: mtab_def)
  then show ?thesis
    by (simp add: to_tensor_def)
qed

lemma mat_bin_is_tbin:
  assumes "wf_mat a" "wf_mat b"
  shows "tbin f (to_tensor a) (to_tensor b) = map_sum id to_tensor (mat_bin f a b)"
proof (cases "bdim (nrows a) (nrows b)")
  case None
  then show ?thesis
    by (simp add: tbin_def mat_bin_def to_tensor_def broadcast_shapes_rank2)
next
  case (Some T)
  note T = this
  show ?thesis
  proof (cases "bdim (ncols a) (ncols b)")
    case None
    with T show ?thesis
      by (simp add: tbin_def mat_bin_def to_tensor_def broadcast_shapes_rank2)
  next
    case (Some C)
    let ?h = "\<lambda>t c. f (mget a (bidx (nrows a) t) (bidx (ncols a) c))
                      (mget b (bidx (nrows b) t) (bidx (ncols b) c))"
    have sh: "broadcast_shapes (shape (to_tensor a)) (shape (to_tensor b)) = Some [T, C]"
      using T Some by (simp add: to_tensor_def broadcast_shapes_rank2)
    have "map (\<lambda>idx. f (bget (to_tensor a) idx) (bget (to_tensor b) idx)) (indices [T, C])
        = concat (map (\<lambda>t. map (\<lambda>c. f (bget (to_tensor a) [t, c]) (bget (to_tensor b) [t, c])) [0..<C]) [0..<T])"
      by (simp add: map_concat comp_def)
    also have "\<dots> = concat (map (\<lambda>t. map (?h t) [0..<C]) [0..<T])"
    proof -
      have pw: "\<And>t c. t < T \<Longrightarrow> c < C \<Longrightarrow>
          f (bget (to_tensor a) [t, c]) (bget (to_tensor b) [t, c]) = ?h t c"
        using bget_to_tensor [OF assms(1)] bget_to_tensor [OF assms(2)]
          bdim_bidx_less [OF T] bdim_bidx_less' [OF T]
          bdim_bidx_less [OF Some] bdim_bidx_less' [OF Some]
        by simp
      have "map (\<lambda>t. map (\<lambda>c. f (bget (to_tensor a) [t, c]) (bget (to_tensor b) [t, c])) [0..<C]) [0..<T]
          = map (\<lambda>t. map (?h t) [0..<C]) [0..<T]"
        by (rule map_cong [OF refl], rule map_cong [OF refl]) (simp add: pw)
      then show ?thesis by (rule arg_cong)
    qed
    finally have "tbin f (to_tensor a) (to_tensor b)
        = Inr (Tensor [T, C] (concat (map (\<lambda>t. map (?h t) [0..<C]) [0..<T])))"
      using sh by (simp add: tbin_def)
    then show ?thesis
      using T Some by (simp add: mat_bin_def to_tensor_mtab)
  qed
qed

subsection \<open>Errors, indices and the softmax\<close>

lemma ebind_Inr [simp]: "ebind (Inr v) f = f v"
  by (simp add: ebind_def)

lemma ebind_Inl [simp]: "ebind (Inl e) f = Inl e"
  by (simp add: ebind_def)

lemma emap_ok: "(\<And>x. x \<in> set xs \<Longrightarrow> f x = Inr (g x)) \<Longrightarrow> emap f xs = Inr (map g xs)"
  by (induction xs) simp_all

lemma wrap_index_mod:
  assumes "- int n \<le> i" "i < int n"
  shows "wrap_index n i = Inr (nat (i mod int n))"
proof (cases "0 \<le> i")
  case True
  with assms show ?thesis by (simp add: wrap_index_def)
next
  case False
  have "(i + int n) mod int n = i + int n"
    using assms False by (intro mod_pos_pos_trivial) simp_all
  then have "i mod int n = i + int n"
    by simp
  with assms False show ?thesis by (simp add: wrap_index_def)
qed

lemma map_vtab: "map h (vtab n f) = vtab n (\<lambda>i. h (f i))"
  by (simp add: vtab_def)

lemma rows_mtab_nth: "t < T \<Longrightarrow> rows (mtab T C f) ! t = vtab C (f t)"
  by (simp add: mtab_def vtab_def)

lemma mtab_from_rows: "Mat C (map (\<lambda>t. vtab C (f t)) [0..<T]) = mtab T C f"
  by (simp add: mtab_def vtab_def)

lemma sum_mget_mtab:
  assumes "t < T"
  shows "(\<Sum>k<C. h (mget (mtab T C f) t k) k) = (\<Sum>k<C. h (f t k) k)"
  by (rule sum.cong) (simp_all add: assms)

lemma softmax_spec_mtab:
  assumes "t < T" "c < C"
  shows "softmax_spec (mtab T C f) t c = exp (f t c) / (\<Sum>k<C. exp (f t k))"
  using assms sum_mget_mtab [OF assms(1), where h = "\<lambda>v k. exp v" and C = C and f = f]
  by (simp add: softmax_spec_def)

lemma softmax_mtab:
  "mat_bin (/) (mat_map exp (mtab T C f)) (unsqueeze1 (sum_dim1 (mat_map exp (mtab T C f))))
   = Inr (mtab T C (softmax_spec (mtab T C f)))"
  by (simp add: mat_map_mtab sum_dim1_mtab unsqueeze1_vtab mat_bin_col softmax_spec_mtab)

lemma ce_softmax:
  assumes "wf_mat x"
  shows "mat_bin (/) (mat_map exp x) (unsqueeze1 (sum_dim1 (mat_map exp x)))
       = Inr (mtab (nrows x) (ncols x) (softmax_spec x))"
proof -
  define T C f where "T = nrows x" and "C = ncols x" and "f = mget x"
  have x: "x = mtab T C f"
    unfolding T_def C_def f_def by (rule mat_eq_mtab [OF assms])
  show ?thesis
    unfolding x by (simp add: softmax_mtab)
qed

subsection \<open>Values of CrossEntropy\<close>

lemma length_arange [simp]: "length (arange n) = n"
  by (simp add: arange_def)

lemma nth_arange [simp]: "k < n \<Longrightarrow> arange n ! k = int k"
  by (simp add: arange_def)

lemma wrap_index_nat: "k < n \<Longrightarrow> wrap_index n (int k) = Inr k"
  by (simp add: wrap_index_def)

lemma mod_index_less:
  assumes "- int n \<le> i" "i < int n"
  shows "nat (i mod int n) < n"
proof -
  have "0 < int n" using assms by linarith
  then have "0 \<le> i mod int n" "i mod int n < int n"
    by simp_all
  then show ?thesis by linarith
qed

lemma index2_diag:
  assumes "length y = T" "\<forall>t<T. - int C \<le> y ! t \<and> y ! t < int C"
  shows "index2 (mtab T C S) (arange T) y = Inr (vtab T (\<lambda>t. S t (nat (y ! t mod int C))))"
proof -
  have "emap (\<lambda>k.
            ebind (wrap_index (nrows (mtab T C S)) (arange T ! bidx (length (arange T)) k)) (\<lambda>r.
            ebind (wrap_index (ncols (mtab T C S)) (y ! bidx (length y) k)) (\<lambda>c.
            Inr (mget (mtab T C S) r c)))) [0..<T]
      = Inr (map (\<lambda>t. S t (nat (y ! t mod int C))) [0..<T])"
  proof (rule emap_ok)
    fix k assume "k \<in> set [0..<T]"
    then have k: "k < T" by simp
    with assms have b: "- int C \<le> y ! k" "y ! k < int C" by simp_all
    show "ebind (wrap_index (nrows (mtab T C S)) (arange T ! bidx (length (arange T)) k)) (\<lambda>r.
            ebind (wrap_index (ncols (mtab T C S)) (y ! bidx (length y) k)) (\<lambda>c.
            Inr (mget (mtab T C S) r c))) = Inr (S k (nat (y ! k mod int C)))"
      using k assms(1) mod_index_less [OF b]
      by (simp add: wrap_index_nat wrap_index_mod [OF b])
  qed
  then show ?thesis
    using assms(1) by (simp add: index2_def vtab_def)
qed

lemma mean_dim0_vtab: "mean_dim0 (vtab n f) = (\<Sum>i<n. f i) / real n"
  by (simp add: mean_dim0_def vtab_def sum_list_upt)

lemma ce_forward_value:
  assumes "wf_mat x" "length y = nrows x"
    "\<forall>t<nrows x. - int (ncols x) \<le> y ! t \<and> y ! t < int (ncols x)"
  shows "CrossEntropyFn_forward x y =
     Inr (- ((\<Sum>t<nrows x. ln (softmax_spec x t (nat (y ! t mod int (ncols x))))) / real (nrows x)),
          \<lparr>ce_x = x, ce_y = y, ce_s = mtab (nrows x) (ncols x) (softmax_spec x)\<rparr>)"
  using index2_diag [OF assms(2,3), of "softmax_spec x"]
  by (simp add: CrossEntropyFn_forward_def Let_def ce_softmax [OF assms(1)] map_vtab mean_dim0_vtab)

lemma map_by_nth: "map f xs = map (\<lambda>t. f (xs ! t)) [0..<length xs]"
  by (rule nth_equalityI) simp_all

lemma onehot_rows:
  assumes "length y = T" "\<forall>t<T. - int C \<le> y ! t \<and> y ! t < int C"
  shows "index_rows (eye C) y = Inr (mtab T C (\<lambda>t c. if nat (y ! t mod int C) = c then 1 else 0))"
proof -
  let ?g = "\<lambda>i. vtab C (\<lambda>c. if nat (i mod int C) = c then 1 else (0::real))"
  have "emap (\<lambda>i. ebind (wrap_index (nrows (eye C)) i) (\<lambda>r. Inr (rows (eye C) ! r))) y
      = Inr (map ?g y)"
  proof (rule emap_ok)
    fix i assume "i \<in> set y"
    then obtain t where "t < T" "y ! t = i"
      using assms(1) by (auto simp: in_set_conv_nth)
    with assms(2) have b: "- int C \<le> i" "i < int C" by auto
    show "ebind (wrap_index (nrows (eye C)) i) (\<lambda>r. Inr (rows (eye C) ! r)) = Inr (?g i)"
      using mod_index_less [OF b]
      by (simp add: eye_def wrap_index_mod [OF b] rows_mtab_nth)
  qed
  moreover have "map ?g y = map (\<lambda>t. ?g (y ! t)) [0..<T]"
    using map_by_nth [of ?g y] assms(1) by simp
  then have "Mat C (map ?g y) = mtab T C (\<lambda>t c. if nat (y ! t mod int C) = c then 1 else 0)"
    by (simp only: mtab_from_rows)
  ultimately show ?thesis
    by (simp add: index_rows_def eye_def)
qed

lemma ce_backward_value:
  assumes "length y = nrows x"
    "\<forall>t<nrows x. - int (ncols x) \<le> y ! t \<and> y ! t < int (ncols x)"
  shows "CrossEntropyFn_backward
           \<lparr>ce_x = x, ce_y = y, ce_s = mtab (nrows x) (ncols x) (softmax_spec x)\<rparr> g =
     Inr (mtab (nrows x) (ncols x) (\<lambda>t c.
            g * (softmax_spec x t c - (if nat (y ! t mod int (ncols x)) = c then 1 else 0))
              / real (nrows x)), None)"
  by (simp add: CrossEntropyFn_backward_def Let_def onehot_rows [OF assms] mat_bin_same mat_map_mtab)



lemma nrows_mat_map [simp]: "nrows (mat_map f m) = nrows m"
  by (simp add: nrows_def mat_map_def)

lemma ncols_mat_map [simp]: "ncols (mat_map f m) = ncols m"
  by (simp add: mat_map_def)

lemma nrows_unsqueeze1 [simp]: "nrows (unsqueeze1 v) = length v"
  by (simp add: nrows_def unsqueeze1_def)

lemma ncols_unsqueeze1 [simp]: "ncols (unsqueeze1 v) = Suc 0"
  by (simp add: unsqueeze1_def)

lemma length_sum_dim1 [simp]: "length (sum_dim1 m) = nrows m"
  by (simp add: sum_dim1_def nrows_def)


lemma softmax_row_sum:
  assumes "0 < ncols x"
  shows "(\<Sum>c<ncols x. softmax_spec x t c) = 1"
proof -
  have "0 < (\<Sum>k<ncols x. exp (mget x t k))"
    using assms by (intro sum_pos) auto
  then show ?thesis
    by (simp add: softmax_spec_def sum_divide_distrib [symmetric])
qed

lemma onehot_row_sum:
  assumes "(k::nat) < C"
  shows "(\<Sum>c<C. if k = c then 1 else (0::real)) = 1"
  using assms by (simp add: sum.delta')

lemma ce_grad_row_sum:
  assumes "0 < ncols x" "k < ncols x"
  shows "(\<Sum>c<ncols x. g * (softmax_spec x t c - (if k = c then 1 else 0)) / real T) = 0"
proof -
  have "(\<Sum>c<ncols x. g * (softmax_spec x t c - (if k = c then 1 else 0)) / real T)
      = g * ((\<Sum>c<ncols x. softmax_spec x t c) - (\<Sum>c<ncols x. if k = c then 1 else 0)) / real T"
    by (simp only: sum_divide_distrib [symmetric] sum_distrib_left [symmetric] sum_subtractf)
  also have "\<dots> = 0"
    by (simp only: softmax_row_sum [OF assms(1)] onehot_row_sum [OF assms(2)]) simp
  finally show ?thesis .
qed

lemma vtab_zero: "vtab n (\<lambda>_. 0) = replicate n 0"
  by (simp add: vtab_def map_replicate_const)

subsection \<open>CrossEntropy\<close>

text \<open>
  Claim C3. For logits of shape \<open>(T, C)\<close> and targets of shape \<open>(T,)\<close> with every
  target in \<open>[0, C)\<close>, \<open>CrossEntropyFn.forward\<close> returns the mean over the rows of the
  negative logarithm of the softmax probability of the row's target, the softmax of row
  \<open>t\<close> at \<open>c\<close> being \<open>exp(x[t,c])\<close> divided by the sum of \<open>exp(x[t,k])\<close> over the classes.
\<close>

theorem CrossEntropyFn_forward_mean_nll:
  assumes "wf_mat x" "length y = nrows x"
    "\<forall>t<nrows x. 0 \<le> y ! t \<and> y ! t < int (ncols x)"
  shows "\<exists>ctx. CrossEntropyFn_forward x y =
           Inr ((\<Sum>t<nrows x. - ln (softmax_spec x t (nat (y ! t)))) / real (nrows x), ctx)"
proof -
  have b: "\<forall>t<nrows x. - int (ncols x) \<le> y ! t \<and> y ! t < int (ncols x)"
    using assms(3) by auto
  have "(\<Sum>t<nrows x. ln (softmax_spec x t (nat (y ! t mod int (ncols x)))))
      = (\<Sum>t<nrows x. ln (softmax_spec x t (nat (y ! t))))"
    using assms(3) by (intro sum.cong) auto
  then show ?thesis
    using ce_forward_value [OF assms(1,2) b] by (simp add: sum_negf)
qed

theorem CrossEntropyFn_forward_mean_nll_witness:
  "wf_mat (Mat 2 [[0, 0]]) \<and> length [1::int] = nrows (Mat 2 [[0, 0]])
   \<and> (\<exists>ctx. CrossEntropyFn_forward (Mat 2 [[0, 0]]) [1] = Inr (ln 2, ctx))"
  using CrossEntropyFn_forward_mean_nll [of "Mat 2 [[0, 0]]" "[1]"]
  by (simp add: wf_mat_def nrows_def softmax_spec_def mget_def lessThan_Suc numeral_2_eq_2 ln_div)

text \<open>
  Claim C2, as amended. The claim quantifies over every integer target vector, but an
  index tensor accepts targets in \<open>[-C, C)\<close> and a negative target counts from the last
  class. For logits of shape \<open>(T, C)\<close>, targets of shape \<open>(T,)\<close> in \<open>[-C, C)\<close> and a
  scalar upstream gradient, forward succeeds and backward returns the matrix with the
  entry \<open>grad * (softmax[t,c] - indicator[c = target[t] mod C]) / T\<close> for the logits, and
  \<open>None\<close> for the targets. For a target in \<open>[0, C)\<close> the indicator is the claim's.
\<close>

theorem CrossEntropyFn_backward_formula:
  assumes "wf_mat x" "length y = nrows x"
    "\<forall>t<nrows x. - int (ncols x) \<le> y ! t \<and> y ! t < int (ncols x)"
  shows "\<exists>loss ctx. CrossEntropyFn_forward x y = Inr (loss, ctx)
       \<and> CrossEntropyFn_backward ctx g =
           Inr (mtab (nrows x) (ncols x) (\<lambda>t c.
                  g * (softmax_spec x t c - (if int c = y ! t mod int (ncols x) then 1 else 0))
                    / real (nrows x)), None)"
proof -
  have "mtab (nrows x) (ncols x) (\<lambda>t c.
            g * (softmax_spec x t c - (if nat (y ! t mod int (ncols x)) = c then 1 else 0))
              / real (nrows x))
      = mtab (nrows x) (ncols x) (\<lambda>t c.
            g * (softmax_spec x t c - (if int c = y ! t mod int (ncols x) then 1 else 0))
              / real (nrows x))"
  proof (rule mtab_cong [OF refl refl])
    fix t c assume "t < nrows x" "c < ncols x"
    then have "0 \<le> y ! t mod int (ncols x)" by simp
    then have "(nat (y ! t mod int (ncols x)) = c) = (int c = y ! t mod int (ncols x))"
      by linarith
    then show "g * (softmax_spec x t c - (if nat (y ! t mod int (ncols x)) = c then 1 else 0)) / real (nrows x)
        = g * (softmax_spec x t c - (if int c = y ! t mod int (ncols x) then 1 else 0)) / real (nrows x)"
      by simp
  qed
  then show ?thesis
    using ce_forward_value [OF assms] ce_backward_value [OF assms(2,3), of g] by simp
qed

theorem CrossEntropyFn_backward_formula_witness:
  "wf_mat (Mat 2 [[0, 0]]) \<and> length [- 1 :: int] = nrows (Mat 2 [[0, 0]])
   \<and> (\<exists>loss ctx. CrossEntropyFn_forward (Mat 2 [[0, 0]]) [- 1] = Inr (loss, ctx)
        \<and> CrossEntropyFn_backward ctx 1 = Inr (Mat 2 [[1 / 2, - 1 / 2]], None))"
  using CrossEntropyFn_backward_formula [of "Mat 2 [[0, 0]]" "[- 1]" 1]
  by (simp add: wf_mat_def nrows_def softmax_spec_def mget_def mtab_def lessThan_Suc numeral_2_eq_2)

text \<open>
  The claim C2 as stated fails at the target \<open>-1\<close>: for one row of two equal logits the
  gradient at class 1 is \<open>-1/2\<close>, where the claim's formula, whose indicator is 0 for
  both classes, gives \<open>1/2\<close>.
\<close>

theorem CrossEntropyFn_backward_negative_target:
  "\<exists>loss ctx dx. CrossEntropyFn_forward (Mat 2 [[0, 0]]) [- 1] = Inr (loss, ctx)
     \<and> CrossEntropyFn_backward ctx 1 = Inr (dx, None)
     \<and> mget dx 0 1 = - 1 / 2
     \<and> 1 * (softmax_spec (Mat 2 [[0, 0]]) 0 1 - (if int 1 = [- 1] ! 0 then 1 else 0))
           / real (nrows (Mat 2 [[0, 0]])) = 1 / 2"
proof -
  let ?x = "Mat 2 [[0, 0]]"
  have w: "wf_mat ?x" by (simp add: wf_mat_def)
  have l: "length [- 1 :: int] = nrows ?x" by (simp add: nrows_def)
  have b: "\<forall>t<nrows ?x. - int (ncols ?x) \<le> [- 1] ! t \<and> [- 1 :: int] ! t < int (ncols ?x)"
    by (simp add: nrows_def)
  show ?thesis
    using ce_forward_value [OF w l b] ce_backward_value [OF l b, of 1]
    by (simp add: nrows_def softmax_spec_def mget_def mtab_def lessThan_Suc numeral_2_eq_2)
qed

text \<open>
  Claim C9. For logits of shape \<open>(T, C)\<close>, targets of shape \<open>(T,)\<close> in \<open>[0, C)\<close> and a
  scalar upstream gradient, every row of the logits gradient of
  \<open>CrossEntropyFn.backward\<close> sums to zero over the class axis.
\<close>

theorem CrossEntropyFn_backward_rows_sum_zero:
  assumes "wf_mat x" "length y = nrows x"
    "\<forall>t<nrows x. 0 \<le> y ! t \<and> y ! t < int (ncols x)"
  shows "\<exists>loss ctx dx. CrossEntropyFn_forward x y = Inr (loss, ctx)
       \<and> CrossEntropyFn_backward ctx g = Inr (dx, None)
       \<and> nrows dx = nrows x \<and> ncols dx = ncols x
       \<and> sum_dim1 dx = replicate (nrows x) 0"
proof -
  have b: "\<forall>t<nrows x. - int (ncols x) \<le> y ! t \<and> y ! t < int (ncols x)"
    using assms(3) by auto
  let ?dx = "mtab (nrows x) (ncols x) (\<lambda>t c.
            g * (softmax_spec x t c - (if nat (y ! t mod int (ncols x)) = c then 1 else 0))
              / real (nrows x))"
  have "sum_dim1 ?dx = vtab (nrows x) (\<lambda>_. 0)"
    unfolding sum_dim1_mtab
  proof (rule vtab_cong [OF refl])
    fix t assume t: "t < nrows x"
    with b have bt: "- int (ncols x) \<le> y ! t" "y ! t < int (ncols x)" by simp_all
    then have pos: "0 < ncols x" by linarith
    show "(\<Sum>c<ncols x. g * (softmax_spec x t c - (if nat (y ! t mod int (ncols x)) = c then 1 else 0))
              / real (nrows x)) = 0"
      by (rule ce_grad_row_sum [OF pos mod_index_less [OF bt]])
  qed
  then have "sum_dim1 ?dx = replicate (nrows x) 0"
    by (simp only: vtab_zero)
  then show ?thesis
    using ce_forward_value [OF assms(1,2) b] ce_backward_value [OF assms(2) b, of g] by simp
qed

theorem CrossEntropyFn_backward_rows_sum_zero_witness:
  "wf_mat (Mat 2 [[0, 0]]) \<and> length [1 :: int] = nrows (Mat 2 [[0, 0]])
   \<and> (\<exists>loss ctx dx. CrossEntropyFn_forward (Mat 2 [[0, 0]]) [1] = Inr (loss, ctx)
        \<and> CrossEntropyFn_backward ctx 3 = Inr (dx, None)
        \<and> sum_dim1 dx = [0])"
  using CrossEntropyFn_backward_rows_sum_zero [of "Mat 2 [[0, 0]]" "[1]" 3]
  by (auto simp: wf_mat_def nrows_def)

subsection \<open>Shape contracts\<close>




subsection \<open>Embedding\<close>

lemma index_add_loop_shape:
  assumes "length idx = length src" "\<forall>i\<in>set idx. 0 \<le> i \<and> i < int (length acc)"
    "\<forall>r\<in>set acc. length r = D" "\<forall>r\<in>set src. length r = D"
  shows "length (index_add_loop acc idx src) = length acc
       \<and> (\<forall>r\<in>set (index_add_loop acc idx src). length r = D)"
  using assms
proof (induction idx src arbitrary: acc rule: list_induct2)
  case Nil
  then show ?case by simp
next
  case (Cons i idx r src)
  let ?acc = "acc[nat i := map2 (+) (acc ! nat i) r]"
  have i: "nat i < length acc" using Cons.prems(1) by auto
  have "length (map2 (+) (acc ! nat i) r) = D"
    using Cons.prems(2,3) i by simp
  then have rows': "\<forall>r\<in>set ?acc. length r = D"
    using Cons.prems(2) by (auto dest!: subsetD [OF set_update_subset_insert])
  have "length (index_add_loop ?acc idx src) = length ?acc
      \<and> (\<forall>r\<in>set (index_add_loop ?acc idx src). length r = D)"
    using Cons.prems(1,3) rows' by (intro Cons.IH) simp_all
  then show ?case by simp
qed

lemma index_add_loop_nth:
  assumes "length idx = length src" "\<forall>i\<in>set idx. 0 \<le> i \<and> i < int (length acc)"
    "\<forall>r\<in>set acc. length r = D" "\<forall>r\<in>set src. length r = D"
    "k < length acc" "d < D"
  shows "index_add_loop acc idx src ! k ! d
       = acc ! k ! d + sum_list (map2 (\<lambda>i r. if i = int k then r ! d else 0) idx src)"
  using assms
proof (induction idx src arbitrary: acc rule: list_induct2)
  case Nil
  then show ?case by simp
next
  case (Cons i idx r src)
  let ?acc = "acc[nat i := map2 (+) (acc ! nat i) r]"
  have i: "nat i < length acc" "0 \<le> i" using Cons.prems(1) by auto
  have lr: "length r = D" "length (acc ! nat i) = D"
    using Cons.prems(2,3) i by simp_all
  then have rows': "\<forall>r\<in>set ?acc. length r = D"
    using Cons.prems(2) by (auto dest!: subsetD [OF set_update_subset_insert])
  have IH: "index_add_loop ?acc idx src ! k ! d
      = ?acc ! k ! d + sum_list (map2 (\<lambda>i r. if i = int k then r ! d else 0) idx src)"
    using Cons.prems(1,3,4,5) rows' by (intro Cons.IH) simp_all
  have "?acc ! k ! d = acc ! k ! d + (if i = int k then r ! d else 0)"
  proof (cases "nat i = k")
    case True
    then have "i = int k" using i by simp
    with True i lr Cons.prems(5) show ?thesis by simp
  next
    case False
    then have "i \<noteq> int k" by auto
    with False show ?thesis by simp
  qed
  with IH show ?case by simp
qed

lemma sum_list_map2_nth:
  assumes "length xs = length ys"
  shows "sum_list (map2 f xs ys) = (\<Sum>t<length xs. f (xs ! t) (ys ! t))"
proof -
  have "map2 f xs ys = map (\<lambda>t. f (xs ! t) (ys ! t)) [0..<length xs]"
    using assms by (intro nth_equalityI) simp_all
  then show ?thesis by (simp add: sum_list_upt)
qed

lemma sum_filtered:
  "(\<Sum>t<(T::nat). if P t then f t else (0::real)) = (\<Sum>t | t < T \<and> P t. f t)"
proof -
  have "(\<Sum>t<T. if P t then f t else 0) = sum f {t \<in> {..<T}. P t}"
    by (rule sum.inter_filter [symmetric]) simp
  also have "{t \<in> {..<T}. P t} = {t. t < T \<and> P t}"
    by auto
  finally show ?thesis .
qed

lemma rows_length: "wf_mat m \<Longrightarrow> r \<in> set (rows m) \<Longrightarrow> length r = ncols m"
  by (simp add: wf_mat_def list_all_iff)

lemma index_add_zeros:
  assumes "wf_mat emb" "wf_mat g" "length x = nrows g" "ncols g = ncols emb"
    "\<forall>t<length x. 0 \<le> x ! t \<and> x ! t < int (nrows emb)"
  shows "index_add (zeros_like emb) x g
       = Inr (mtab (nrows emb) (ncols emb) (\<lambda>k d. \<Sum>t | t < length x \<and> x ! t = int k. mget g t d))"
proof -
  let ?Z = "rows (zeros_like emb)"
  let ?R = "index_add_loop ?Z x (rows g)"
  have lz: "length ?Z = nrows emb"
    by (simp add: zeros_like_def mat_map_def nrows_def)
  have rz: "\<forall>r\<in>set ?Z. length r = ncols emb"
    using assms(1) by (auto simp: zeros_like_def mat_map_def dest: rows_length)
  have rg: "\<forall>r\<in>set (rows g). length r = ncols emb"
    using assms(2,4) by (auto dest: rows_length)
  have lx: "length x = length (rows g)"
    using assms(3) by (simp add: nrows_def)
  have ix: "\<forall>i\<in>set x. 0 \<le> i \<and> i < int (length ?Z)"
    using assms(5) lz by (auto simp: in_set_conv_nth)
  have z0: "\<And>k d. k < nrows emb \<Longrightarrow> d < ncols emb \<Longrightarrow> ?Z ! k ! d = 0"
  proof -
    fix k d assume k: "k < nrows emb" and d: "d < ncols emb"
    then have "length (rows emb ! k) = ncols emb"
      using assms(1) by (auto simp: nrows_def intro: rows_length)
    with k d show "?Z ! k ! d = 0"
      by (simp add: zeros_like_def mat_map_def nrows_def)
  qed
  have shape: "length ?R = nrows emb" "\<forall>r\<in>set ?R. length r = ncols emb"
    using index_add_loop_shape [OF lx ix rz rg] lz by simp_all
  then have wfR: "wf_mat (Mat (ncols emb) ?R)" "nrows (Mat (ncols emb) ?R) = nrows emb"
    by (simp_all add: wf_mat_def list_all_iff nrows_def)
  have "Mat (ncols emb) ?R = mtab (nrows emb) (ncols emb) (mget (Mat (ncols emb) ?R))"
    using mat_eq_mtab [OF wfR(1)] wfR(2) by simp
  also have "\<dots> = mtab (nrows emb) (ncols emb)
      (\<lambda>k d. \<Sum>t | t < length x \<and> x ! t = int k. mget g t d)"
  proof (rule mtab_cong [OF refl refl])
    fix k d assume k: "k < nrows emb" and d: "d < ncols emb"
    have "mget (Mat (ncols emb) ?R) k d
        = ?Z ! k ! d + sum_list (map2 (\<lambda>i r. if i = int k then r ! d else 0) x (rows g))"
      unfolding mget_def mat.sel
      using k d lz by (intro index_add_loop_nth [OF lx ix rz rg]) simp_all
    also have "\<dots> = (\<Sum>t<length x. if x ! t = int k then mget g t d else 0)"
      unfolding mget_def by (simp add: z0 [OF k d] sum_list_map2_nth [OF lx])
    finally show "mget (Mat (ncols emb) ?R) k d = (\<Sum>t | t < length x \<and> x ! t = int k. mget g t d)"
      by (simp only: sum_filtered)
  qed
  finally have R: "Mat (ncols emb) ?R = mtab (nrows emb) (ncols emb)
      (\<lambda>k d. \<Sum>t | t < length x \<and> x ! t = int k. mget g t d)" .
  have nz: "nrows (zeros_like emb) = nrows emb" "ncols (zeros_like emb) = ncols emb"
    by (simp_all add: zeros_like_def)
  have "\<not> list_ex (\<lambda>i. i < 0 \<or> int (nrows (zeros_like emb)) \<le> i) x"
    using ix lz by (auto simp: list_ex_iff nz)
  then show ?thesis
    using assms(3,4) R by (simp add: index_add_def nz)
qed

lemma embedding_forward_ok:
  assumes "\<forall>t<length x. 0 \<le> x ! t \<and> x ! t < int (nrows emb)"
  shows "EmbeddingFn_forward x emb =
     Inr (Mat (ncols emb) (map (\<lambda>i. rows emb ! nat i) x), \<lparr>emb_x = x, emb_emb = emb\<rparr>)"
proof -
  have "emap (\<lambda>i. ebind (wrap_index (nrows emb) i) (\<lambda>r. Inr (rows emb ! r))) x
      = Inr (map (\<lambda>i. rows emb ! nat i) x)"
  proof (rule emap_ok)
    fix i assume "i \<in> set x"
    with assms have "0 \<le> i" "i < int (nrows emb)"
      by (auto simp: in_set_conv_nth)
    then show "ebind (wrap_index (nrows emb) i) (\<lambda>r. Inr (rows emb ! r)) = Inr (rows emb ! nat i)"
      by (simp add: wrap_index_def)
  qed
  then show ?thesis
    by (simp add: EmbeddingFn_forward_def index_rows_def)
qed

text \<open>
  Claim C4. For an index vector of shape \<open>(T,)\<close> with entries in \<open>[0, N)\<close>, a table of
  shape \<open>(N, D)\<close> and an upstream gradient of shape \<open>(T, D)\<close>, \<open>EmbeddingFn.backward\<close>
  returns \<open>None\<close> for the indices and, for the table, the rows of the upstream gradient
  scatter-added into zeros of shape \<open>(N, D)\<close>: row \<open>k\<close> is the sum of the upstream rows at
  every position where \<open>k\<close> occurs.
\<close>

theorem EmbeddingFn_backward_scatter_add:
  assumes "wf_mat emb" "wf_mat g" "length x = nrows g" "ncols g = ncols emb"
    "\<forall>t<length x. 0 \<le> x ! t \<and> x ! t < int (nrows emb)"
  shows "\<exists>out ctx. EmbeddingFn_forward x emb = Inr (out, ctx)
       \<and> EmbeddingFn_backward ctx g =
           Inr (None, mtab (nrows emb) (ncols emb)
                  (\<lambda>k d. \<Sum>t | t < length x \<and> x ! t = int k. mget g t d))"
  using embedding_forward_ok [OF assms(5)] index_add_zeros [OF assms]
  by (simp add: EmbeddingFn_backward_def)

theorem EmbeddingFn_backward_scatter_add_witness:
  "wf_mat (Mat 1 [[7], [8]]) \<and> wf_mat (Mat 1 [[1], [2], [4]])
   \<and> length [1, 0, 1 :: int] = nrows (Mat 1 [[1], [2], [4]])
   \<and> (\<exists>out ctx. EmbeddingFn_forward [1, 0, 1] (Mat 1 [[7], [8]]) = Inr (out, ctx)
        \<and> EmbeddingFn_backward ctx (Mat 1 [[1], [2], [4]]) = Inr (None, Mat 1 [[2], [5]]))"
proof -
  have w: "wf_mat (Mat 1 [[7], [8]])" "wf_mat (Mat 1 [[1], [2], [4]])"
    by (simp_all add: wf_mat_def)
  have l: "length [1, 0, 1 :: int] = nrows (Mat 1 [[1], [2], [4]])"
    by (simp add: nrows_def)
  have c: "ncols (Mat 1 [[1], [2], [4]]) = ncols (Mat 1 [[7], [8]])"
    by simp
  have b: "\<forall>t<length [1, 0, 1 :: int]. 0 \<le> [1, 0, 1 :: int] ! t
      \<and> [1, 0, 1 :: int] ! t < int (nrows (Mat 1 [[7], [8]]))"
    by (simp add: nrows_def less_Suc_eq nth_Cons' numeral_3_eq_3)
  note th = EmbeddingFn_backward_scatter_add [OF w l c b, unfolded sum_filtered [symmetric]]
  have eq: "mtab (nrows (Mat 1 [[7], [8]])) (ncols (Mat 1 [[7], [8]]))
      (\<lambda>k d. \<Sum>t<length [1, 0, 1 :: int].
         if [1, 0, 1 :: int] ! t = int k then mget (Mat 1 [[1], [2], [4]]) t d else 0)
      = Mat 1 [[2], [5]]"
    by (simp add: mtab_def mget_def nrows_def lessThan_Suc numeral_3_eq_3)
  from th [unfolded eq] w l show ?thesis by simp
qed

subsection \<open>LayerNorm\<close>

lemma bdim3_same [simp]: "bdim3 n n n = Some n"
  by (simp add: bdim3_def)




lemma ln_forward_tab:
  fixes x :: mat
  defines "T \<equiv> nrows x" and "C \<equiv> ncols x"
  shows "LayerNormFn_forward (mtab T C (mget x)) (vtab C \<gamma>) (vtab C \<beta>) =
     Inr (mtab T C (\<lambda>t c. centered x t c * inv_std x t * \<gamma> c + \<beta> c),
          \<lparr>ln_x = mtab T C (mget x), ln_gamma = vtab C \<gamma>, ln_beta = vtab C \<beta>,
           ln_m = vtab T (row_mean x), ln_mu = mtab T C (centered x),
           ln_v = vtab T (row_var x), ln_sigma = vtab T (inv_std x),
           ln_y = mtab T C (\<lambda>t c. centered x t c * inv_std x t * \<gamma> c + \<beta> c)\<rparr>)"
proof -
  let ?X = "mtab T C (mget x)"
  have m: "mean_dim1 ?X = vtab T (row_mean x)"
    by (simp add: mean_dim1_mtab row_mean_def C_def)
  have mu: "mat_bin (-) ?X (unsqueeze1 (vtab T (row_mean x))) = Inr (mtab T C (centered x))"
    by (simp add: unsqueeze1_vtab mat_bin_col centered_def)
  have v: "mean_dim1 (mat_map (\<lambda>a. a ^ 2) (mtab T C (centered x))) = vtab T (row_var x)"
    by (simp add: mat_map_mtab mean_dim1_mtab row_var_def C_def)
  have sigma: "map (\<lambda>a. 1 / sqrt (a + 0.00001)) (vtab T (row_var x)) = vtab T (inv_std x)"
    by (simp add: map_vtab inv_std_def)
  have n1: "mat_bin (*) (mtab T C (centered x)) (unsqueeze1 (vtab T (inv_std x)))
      = Inr (mtab T C (\<lambda>t c. centered x t c * inv_std x t))"
    by (simp add: unsqueeze1_vtab mat_bin_col)
  have n2: "mat_bin (*) (mtab T C (\<lambda>t c. centered x t c * inv_std x t)) (unsqueeze0 (vtab C \<gamma>))
      = Inr (mtab T C (\<lambda>t c. centered x t c * inv_std x t * \<gamma> c))"
    by (simp add: unsqueeze0_vtab mat_bin_row)
  have y: "mat_bin (+) (mtab T C (\<lambda>t c. centered x t c * inv_std x t * \<gamma> c)) (unsqueeze0 (vtab C \<beta>))
      = Inr (mtab T C (\<lambda>t c. centered x t c * inv_std x t * \<gamma> c + \<beta> c))"
    by (simp add: unsqueeze0_vtab mat_bin_row)
  show ?thesis
    unfolding LayerNormFn_forward_def Let_def m mu ebind_Inr v sigma n1 n2 y ..
qed

lemma ln_forward_value:
  assumes "wf_mat x" "length gamma = ncols x" "length beta = ncols x"
  shows "LayerNormFn_forward x gamma beta =
     Inr (mtab (nrows x) (ncols x) (\<lambda>t c. centered x t c * inv_std x t * gamma ! c + beta ! c),
          \<lparr>ln_x = x, ln_gamma = gamma, ln_beta = beta,
           ln_m = vtab (nrows x) (row_mean x), ln_mu = mtab (nrows x) (ncols x) (centered x),
           ln_v = vtab (nrows x) (row_var x), ln_sigma = vtab (nrows x) (inv_std x),
           ln_y = mtab (nrows x) (ncols x) (\<lambda>t c. centered x t c * inv_std x t * gamma ! c + beta ! c)\<rparr>)"
proof -
  have x: "mtab (nrows x) (ncols x) (mget x) = x"
    by (rule mat_eq_mtab [OF assms(1), symmetric])
  have g: "vtab (ncols x) ((!) gamma) = gamma"
    using vec_eq_vtab [of gamma] assms(2) by simp
  have b: "vtab (ncols x) ((!) beta) = beta"
    using vec_eq_vtab [of beta] assms(3) by simp
  show ?thesis
    using ln_forward_tab [of x "(!) gamma" "(!) beta"] by (simp only: x g b)
qed



lemma centered_sum:
  assumes "0 < ncols x"
  shows "(\<Sum>c<ncols x. centered x t c) = 0"
  using assms by (simp add: centered_def row_mean_def sum_subtractf)

lemma row_var_nonneg: "0 \<le> row_var x t"
  by (simp add: row_var_def sum_nonneg)

lemma inv_std_sq: "(inv_std x t) ^ 2 = 1 / (row_var x t + 0.00001)"
proof -
  have "0 \<le> row_var x t + 0.00001"
    using row_var_nonneg [of x t] by simp
  then show ?thesis
    by (simp add: inv_std_def power_divide)
qed

lemma vec_mean_vtab: "vec_mean (vtab n f) = (\<Sum>i<n. f i) / real n"
  by (simp add: vec_mean_def vtab_def sum_list_upt)

lemma normalized_row_mean:
  assumes "0 < ncols x"
  shows "vec_mean (vtab (ncols x) (\<lambda>c. centered x t c * inv_std x t)) = 0"
  by (simp add: vec_mean_vtab sum_distrib_right [symmetric] centered_sum [OF assms])

lemma normalized_row_var:
  assumes "0 < ncols x"
  shows "vec_var (vtab (ncols x) (\<lambda>c. centered x t c * inv_std x t))
       = row_var x t / (row_var x t + 0.00001)"
proof -
  let ?r = "vtab (ncols x) (\<lambda>c. centered x t c * inv_std x t)"
  have "vec_var ?r = vec_mean (vtab (ncols x) (\<lambda>c. (centered x t c * inv_std x t) ^ 2))"
    by (simp add: vec_var_def normalized_row_mean [OF assms] map_vtab)
  also have "\<dots> = (\<Sum>c<ncols x. (centered x t c) ^ 2 * (inv_std x t) ^ 2) / real (ncols x)"
    by (simp add: vec_mean_vtab power_mult_distrib)
  also have "\<dots> = row_var x t * (inv_std x t) ^ 2"
    by (simp add: row_var_def sum_distrib_right [symmetric])
  also have "\<dots> = row_var x t / (row_var x t + 0.00001)"
    by (simp add: inv_std_sq)
  finally show ?thesis .
qed

lemma ratio_bounds:
  assumes "0 \<le> (v::real)" "0 < e"
  shows "0 \<le> v / (v + e)" "v / (v + e) < 1"
  using assms by simp_all

lemma same_row_stats:
  assumes "rows x ! t = rows x ! u"
  shows "centered x t c = centered x u c" "inv_std x t = inv_std x u"
  using assms by (simp_all add: centered_def inv_std_def row_var_def row_mean_def mget_def)

lemma ln_normalized_value:
  "LayerNorm_normalized
     \<lparr>ln_x = x', ln_gamma = ga, ln_beta = be, ln_m = m, ln_mu = mtab T C (centered x), ln_v = v,
      ln_sigma = vtab T (inv_std x), ln_y = y\<rparr>
   = Inr (mtab T C (\<lambda>t c. centered x t c * inv_std x t))"
  by (simp add: LayerNorm_normalized_def unsqueeze1_vtab mat_bin_col)

lemma ln_normalized_stats:
  assumes "wf_mat x" "length gamma = ncols x" "length beta = ncols x" "0 < ncols x"
  shows "\<exists>y ctx n. LayerNormFn_forward x gamma beta = Inr (y, ctx)
       \<and> LayerNorm_normalized ctx = Inr n \<and> nrows n = nrows x
       \<and> (\<forall>t<nrows x. vec_mean (rows n ! t) = 0
             \<and> vec_var (rows n ! t) = row_var x t / (row_var x t + 0.00001)
             \<and> 0 \<le> vec_var (rows n ! t) \<and> vec_var (rows n ! t) < 1)
       \<and> (\<forall>t<nrows x. \<forall>u<nrows x. rows x ! t = rows x ! u \<longrightarrow> rows y ! t = rows y ! u)"
proof -
  let ?n = "mtab (nrows x) (ncols x) (\<lambda>t c. centered x t c * inv_std x t)"
  let ?y = "mtab (nrows x) (ncols x) (\<lambda>t c. centered x t c * inv_std x t * gamma ! c + beta ! c)"
  have stats: "\<forall>t<nrows x. vec_mean (rows ?n ! t) = 0
             \<and> vec_var (rows ?n ! t) = row_var x t / (row_var x t + 0.00001)
             \<and> 0 \<le> vec_var (rows ?n ! t) \<and> vec_var (rows ?n ! t) < 1"
  proof (intro allI impI)
    fix t assume t: "t < nrows x"
    have r: "rows ?n ! t = vtab (ncols x) (\<lambda>c. centered x t c * inv_std x t)"
      using t by (rule rows_mtab_nth)
    have e: "(0::real) < 0.00001" by simp
    show "vec_mean (rows ?n ! t) = 0
        \<and> vec_var (rows ?n ! t) = row_var x t / (row_var x t + 0.00001)
        \<and> 0 \<le> vec_var (rows ?n ! t) \<and> vec_var (rows ?n ! t) < 1"
      unfolding r normalized_row_mean [OF assms(4)] normalized_row_var [OF assms(4)]
      using ratio_bounds [OF row_var_nonneg e, of x t] by blast
  qed
  have same: "\<forall>t<nrows x. \<forall>u<nrows x. rows x ! t = rows x ! u \<longrightarrow> rows ?y ! t = rows ?y ! u"
  proof (intro allI impI)
    fix t u assume t: "t < nrows x" and u: "u < nrows x" and eq: "rows x ! t = rows x ! u"
    have "rows ?y ! t = vtab (ncols x) (\<lambda>c. centered x t c * inv_std x t * gamma ! c + beta ! c)"
      using t by (rule rows_mtab_nth)
    also have "\<dots> = vtab (ncols x) (\<lambda>c. centered x u c * inv_std x u * gamma ! c + beta ! c)"
      by (simp only: same_row_stats [OF eq])
    also have "\<dots> = rows ?y ! u"
      using u by (rule rows_mtab_nth [symmetric])
    finally show "rows ?y ! t = rows ?y ! u" .
  qed
  let ?ctx = "\<lparr>ln_x = x, ln_gamma = gamma, ln_beta = beta,
           ln_m = vtab (nrows x) (row_mean x), ln_mu = mtab (nrows x) (ncols x) (centered x),
           ln_v = vtab (nrows x) (row_var x), ln_sigma = vtab (nrows x) (inv_std x),
           ln_y = ?y\<rparr>"
  have f: "LayerNormFn_forward x gamma beta = Inr (?y, ?ctx)"
    by (rule ln_forward_value [OF assms(1,2,3)])
  have n: "LayerNorm_normalized ?ctx = Inr ?n"
    by (rule ln_normalized_value)
  have nr: "nrows ?n = nrows x"
    by (rule nrows_mtab)
  from f n nr stats same show ?thesis
    by blast
qed




text \<open>
  Claim C7, as amended. For an input with at least one feature, every row of the
  normalized values before the affine step has mean 0 and variance \<open>v / (v + eps)\<close>,
  where \<open>v\<close> is the variance of the input row and \<open>eps = 1e-05\<close>: it lies in \<open>[0, 1)\<close>,
  is close to 1 only when \<open>v\<close> is large against \<open>eps\<close>, and is 0 for a constant row.
  Equal input rows give equal output rows.
\<close>

theorem LayerNormFn_forward_normalized_stats:
  assumes "wf_mat x" "length gamma = ncols x" "length beta = ncols x" "0 < ncols x"
  shows "\<exists>y ctx n. LayerNormFn_forward x gamma beta = Inr (y, ctx)
       \<and> LayerNorm_normalized ctx = Inr n \<and> nrows n = nrows x
       \<and> (\<forall>t<nrows x. vec_mean (rows n ! t) = 0
             \<and> vec_var (rows n ! t) = row_var x t / (row_var x t + 0.00001)
             \<and> 0 \<le> vec_var (rows n ! t) \<and> vec_var (rows n ! t) < 1)
       \<and> (\<forall>t<nrows x. \<forall>u<nrows x. rows x ! t = rows x ! u \<longrightarrow> rows y ! t = rows y ! u)"
  by (rule ln_normalized_stats [OF assms])

theorem LayerNormFn_forward_normalized_stats_witness:
  "wf_mat (Mat 2 [[1, 3]]) \<and> length [1, 1 :: real] = ncols (Mat 2 [[1, 3]])
   \<and> (\<exists>y ctx n. LayerNormFn_forward (Mat 2 [[1, 3]]) [1, 1] [0, 0] = Inr (y, ctx)
        \<and> LayerNorm_normalized ctx = Inr n
        \<and> vec_mean (rows n ! 0) = 0
        \<and> vec_var (rows n ! 0) = 1 / (1 + 0.00001))"
proof -
  have "row_var (Mat 2 [[1, 3]]) 0 = 1"
    by (simp add: row_var_def centered_def row_mean_def mget_def lessThan_Suc numeral_2_eq_2)
  then show ?thesis
    using LayerNormFn_forward_normalized_stats [of "Mat 2 [[1, 3]]" "[1, 1]" "[0, 0]"]
    by (auto simp: wf_mat_def nrows_def)
qed

text \<open>
  The claim C7 as stated fails for a constant row: its normalized values have the
  variance 0, at distance 1 from 1.
\<close>

theorem LayerNormFn_forward_constant_row_variance:
  "\<exists>y ctx n. LayerNormFn_forward (Mat 2 [[1, 1]]) [1, 1] [0, 0] = Inr (y, ctx)
     \<and> LayerNorm_normalized ctx = Inr n
     \<and> vec_var (rows n ! 0) = 0 \<and> \<not> \<bar>vec_var (rows n ! 0) - 1\<bar> < 1"
proof -
  have w: "wf_mat (Mat 2 [[1, 1]])" by (simp add: wf_mat_def)
  have "row_var (Mat 2 [[1, 1]]) 0 = 0"
    by (simp add: row_var_def centered_def row_mean_def mget_def lessThan_Suc numeral_2_eq_2)
  then show ?thesis
    using ln_normalized_stats [OF w, of "[1, 1]" "[0, 0]"]
    by (auto simp: nrows_def)
qed

text \<open>
  Claim C10. The constructor of the module sets the gain to ones and the bias to
  zeros, so the forward output of a fresh \<open>LayerNorm(c_dim)\<close> on an input of shape
  \<open>(T, c_dim)\<close> is the centered input times the row inverse standard deviation, the
  normalized values themselves.
\<close>

theorem LayerNorm_fresh_module_normalizes:
  assumes "wf_mat x"
  shows "param_gamma (LayerNorm_init c_dim) = replicate c_dim 1
       \<and> param_beta (LayerNorm_init c_dim) = replicate c_dim 0
       \<and> (\<exists>ctx. LayerNorm_forward (LayerNorm_init (ncols x)) x =
             Inr (mtab (nrows x) (ncols x) (\<lambda>t c. centered x t c * inv_std x t), ctx)
           \<and> LayerNorm_normalized ctx =
             Inr (mtab (nrows x) (ncols x) (\<lambda>t c. centered x t c * inv_std x t)))"
proof -
  have "mtab (nrows x) (ncols x)
          (\<lambda>t c. centered x t c * inv_std x t * replicate (ncols x) 1 ! c + replicate (ncols x) 0 ! c)
      = mtab (nrows x) (ncols x) (\<lambda>t c. centered x t c * inv_std x t)"
    by (rule mtab_cong [OF refl refl]) simp
  then show ?thesis
    using ln_forward_value [OF assms, of "replicate (ncols x) 1" "replicate (ncols x) 0"]
    by (simp add: LayerNorm_forward_def LayerNorm_init_def ln_normalized_value)
qed

theorem LayerNorm_fresh_module_normalizes_witness:
  "wf_mat (Mat 2 [[1, 1]])
   \<and> param_gamma (LayerNorm_init 2) = [1, 1] \<and> param_beta (LayerNorm_init 2) = [0, 0]
   \<and> (\<exists>ctx. LayerNorm_forward (LayerNorm_init 2) (Mat 2 [[1, 1]]) = Inr (Mat 2 [[0, 0]], ctx))"
  using LayerNorm_fresh_module_normalizes [of "Mat 2 [[1, 1]]" 2]
  by (auto simp: wf_mat_def nrows_def mtab_def centered_def row_mean_def mget_def
      lessThan_Suc numeral_2_eq_2)

end
